theory Spec2Isabelle
  imports Main "HOL-Library.Sublist" "HOL-Library.Multiset"
begin

section \<open>Configuration data (main.go, lines 16-37)\<close>

text \<open>
  Go strings are byte sequences, so a Go \<^verbatim>\<open>string\<close> is a HOL \<^typ>\<open>string\<close>
  (a list of 8-bit characters).  The three configuration structs become records.
  \<^verbatim>\<open>Task\<close> and \<^verbatim>\<open>JenkinsConfig\<close> both have fields \<^verbatim>\<open>User\<close> and \<^verbatim>\<open>Token\<close>;
  they are told apart by their qualified names.
\<close>

record Task =
  Command :: string
  URL :: string
  Method :: string
  User :: string
  Token :: string

record JenkinsConfig =
  User :: string
  Token :: string
  URLFormat :: string

text \<open>
  \<^verbatim>\<open>Tasks map[string]Task\<close> is an association list read through \<^const>\<open>map_of\<close>;
  the keys of the map are the distinct first components.
\<close>

record Config =
  SlackToken :: string
  Tasks :: "(string \<times> Task) list"
  Jenkins :: JenkinsConfig

definition zeroConfig :: Config where
  "zeroConfig =
     \<lparr>SlackToken = [], Tasks = [],
      Jenkins = \<lparr>JenkinsConfig.User = [], JenkinsConfig.Token = [], URLFormat = []\<rparr>\<rparr>"

definition mapKeys :: "('k \<times> 'v) list \<Rightarrow> 'k list" where
  "mapKeys m = remdups (map fst m)"


section \<open>Outbound requests and the environment of one invocation\<close>

record request =
  reqMethod :: string
  reqURL :: string
  reqHeader :: "(string \<times> string) list"

text \<open>What \<^verbatim>\<open>client.Do\<close> gives back: an error, or a response with its status code.\<close>

datatype response = TransportError | Status int

text \<open>
  Everything outside the program that one run depends on:
  \<^item> \<open>unicodeLower\<close>: the result of \<^verbatim>\<open>strings.Map(unicode.ToLower, s)\<close>, which
    \<^verbatim>\<open>strings.ToLower\<close> falls back to when \<open>s\<close> has a byte \<open>\<ge> 0x80\<close>;
  \<^item> \<open>urlParses\<close>: whether \<^verbatim>\<open>url.Parse\<close> accepts the string, the only way
    \<^verbatim>\<open>http.NewRequest\<close> fails for the constant methods "GET" and "POST";
  \<^item> \<open>clientDo\<close>: the downstream answer to a request;
  \<^item> \<open>rangeSeed\<close>: the choices the runtime makes when a \<^verbatim>\<open>range\<close> loop walks a map
    (the language leaves the iteration order unspecified);
  \<^item> \<open>osOpen\<close>: \<^verbatim>\<open>os.Open\<close> followed by \<^verbatim>\<open>ioutil.ReadAll\<close>: the error of
    \<^verbatim>\<open>os.Open\<close>, or the bytes \<^verbatim>\<open>ReadAll\<close> returned (the source drops its error);
  \<^item> \<open>jsonUnmarshal\<close>: \<^verbatim>\<open>json.Unmarshal\<close> into a Config: the Config as the decoder
    left it, and the error it returned, if any.
\<close>

record world =
  unicodeLower :: "string \<Rightarrow> string"
  urlParses :: "string \<Rightarrow> bool"
  clientDo :: "request \<Rightarrow> response"
  rangeSeed :: "nat list"
  osOpen :: "string \<Rightarrow> string + string"
  jsonUnmarshal :: "string \<Rightarrow> Config \<Rightarrow> Config \<times> string option"

datatype action = HttpDo request | PostMessage string string

datatype 'a outcome = Returned 'a | Panic


section \<open>Library functions the handler calls\<close>

subsection \<open>strings.ToLower\<close>

definition isUpperByte :: "char \<Rightarrow> bool" where
  "isUpperByte c = (65 \<le> (of_char c :: nat) \<and> (of_char c :: nat) \<le> 90)"

definition lowerByte :: "char \<Rightarrow> char" where
  "lowerByte c = (if isUpperByte c then char_of ((of_char c :: nat) + 32) else c)"

definition isASCII :: "string \<Rightarrow> bool" where
  "isASCII s = list_all (\<lambda>c. (of_char c :: nat) < 128) s"

definition ToLower :: "world \<Rightarrow> string \<Rightarrow> string" where
  "ToLower w s = (if isASCII s then map lowerByte s else unicodeLower w s)"

subsection \<open>strings.Split with a one-byte separator\<close>

fun Split :: "string \<Rightarrow> char \<Rightarrow> string list" where
  "Split [] sep = [[]]"
| "Split (c # cs) sep =
     (if c = sep then [] # Split cs sep
      else (case Split cs sep of
              [] \<Rightarrow> [[c]]
            | tok # toks \<Rightarrow> (c # tok) # toks))"

subsection \<open>strings.Replace with n = 1\<close>

fun Replace :: "string \<Rightarrow> string \<Rightarrow> string \<Rightarrow> string" where
  "Replace [] old new = (if old = [] then new else [])"
| "Replace (c # cs) old new =
     (if prefix old (c # cs) then new @ drop (length old) (c # cs)
      else c # Replace cs old new)"

subsection \<open>base64.StdEncoding.EncodeToString\<close>

definition encodeStd :: string where
  "encodeStd = ''ABCDEFGHIJKLMNOPQRSTUVWXYZabcdefghijklmnopqrstuvwxyz0123456789+/''"

text \<open>
  \<^verbatim>\<open>val>>k & 0x3F\<close> on the 24-bit group is \<open>val div 2 ^ k mod 64\<close>.
\<close>

definition sextet :: "nat \<Rightarrow> nat \<Rightarrow> char" where
  "sextet val k = encodeStd ! (val div 2 ^ k mod 64)"

fun EncodeToString :: "string \<Rightarrow> string" where
  "EncodeToString (a # b # c # src) =
     (let val = of_char a * 65536 + of_char b * 256 + of_char c
      in sextet val 18 # sextet val 12 # sextet val 6 # sextet val 0 # EncodeToString src)"
| "EncodeToString [a, b] =
     (let val = of_char a * 65536 + of_char b * 256
      in [sextet val 18, sextet val 12, sextet val 6, CHR ''=''])"
| "EncodeToString [a] =
     (let val = of_char a * 65536
      in [sextet val 18, sextet val 12, CHR ''='', CHR ''=''])"
| "EncodeToString [] = []"

subsection \<open>http.NewRequest and Header.Add\<close>

definition NewRequest :: "world \<Rightarrow> string \<Rightarrow> string \<Rightarrow> request option" where
  "NewRequest w method url =
     (if urlParses w url then Some \<lparr>reqMethod = method, reqURL = url, reqHeader = []\<rparr>
      else None)"

definition HeaderAdd :: "request \<Rightarrow> string \<Rightarrow> string \<Rightarrow> request" where
  "HeaderAdd req k v = req\<lparr>reqHeader := reqHeader req @ [(k, v)]\<rparr>"

subsection \<open>Walking a map with range\<close>

text \<open>
  A \<^verbatim>\<open>range\<close> loop visits every key once, in an order the runtime chooses anew for
  each loop.  The seed supplies the choices: each number picks the next key among those
  not yet visited; when the seed runs out the rest follow as stored.
\<close>

fun rangeOrder :: "nat list \<Rightarrow> 'a list \<Rightarrow> 'a list" where
  "rangeOrder [] xs = xs"
| "rangeOrder (n # ns) [] = []"
| "rangeOrder (n # ns) (x # xs) =
     (let i = n mod Suc (length xs)
      in (x # xs) ! i # rangeOrder ns (take i (x # xs) @ drop (Suc i) (x # xs)))"


section \<open>loadConfig (main.go, lines 45-58)\<close>

definition loadConfig :: "world \<Rightarrow> string \<Rightarrow> string + Config" where
  "loadConfig w filePath =
     (case osOpen w filePath of
        Inl err \<Rightarrow> Inl err
      | Inr byteValue \<Rightarrow> Inr (fst (jsonUnmarshal w byteValue zeroConfig)))"


section \<open>executeJenkinsJob (main.go, lines 232-261)\<close>

text \<open>
  Both executors give back the requests they handed to \<^verbatim>\<open>client.Do\<close>, in order, next
  to what the Go function returns.
\<close>

definition executeJenkinsJob :: "world \<Rightarrow> string \<Rightarrow> string \<Rightarrow> string \<Rightarrow> request list \<times> bool" where
  "executeJenkinsJob w url user token =
     (case NewRequest w ''POST'' url of
        None \<Rightarrow> ([], False)
      | Some req0 \<Rightarrow>
          (let auth = EncodeToString (user @ '':'' @ token);
               req = HeaderAdd req0 ''Authorization'' (''Basic '' @ auth)
           in case clientDo w req of
                TransportError \<Rightarrow> ([req], False)
              | Status code \<Rightarrow> ([req], if 200 \<le> code \<and> code < 300 then True else False)))"


section \<open>executeTask (main.go, lines 264-303)\<close>

text \<open>
  Lines 268-279 build the request, lines 281-302 send it and classify the answer.
  On the POST path the source calls \<^verbatim>\<open>req.Header.Add\<close> before it looks at \<^verbatim>\<open>err\<close>.
  When \<^verbatim>\<open>http.NewRequest\<close> has failed, \<^verbatim>\<open>req\<close> is nil and the call dereferences it:
  the goroutine panics.
\<close>

definition buildTaskRequest :: "world \<Rightarrow> Task \<Rightarrow> request option outcome" where
  "buildTaskRequest w task =
     (if Method task = ''POST'' then
        (let r = NewRequest w ''POST'' (URL task)
         in if Task.User task \<noteq> [] \<and> Task.Token task \<noteq> [] then
              (case r of
                 None \<Rightarrow> Panic
               | Some req \<Rightarrow>
                   (let auth = EncodeToString (Task.User task @ '':'' @ Task.Token task)
                    in Returned (Some (HeaderAdd req ''Authorization'' (''Basic '' @ auth)))))
            else Returned r)
      else Returned (NewRequest w ''GET'' (URL task)))"

definition executeTask :: "world \<Rightarrow> Task \<Rightarrow> request list \<times> bool outcome" where
  "executeTask w task =
     (case buildTaskRequest w task of
        Panic \<Rightarrow> ([], Panic)
      | Returned None \<Rightarrow> ([], Returned False)
      | Returned (Some req) \<Rightarrow>
          (case clientDo w req of
             TransportError \<Rightarrow> ([req], Returned False)
           | Status code \<Rightarrow>
               ([req], Returned (if 200 \<le> code \<and> code < 300 then True else False))))"


section \<open>handleMessageEvent (main.go, lines 119-229)\<close>

text \<open>
  What one run of the handler leaves behind: the outbound actions in order, whether the
  goroutine panicked, and the Config the pointer refers to afterwards.
\<close>

record run =
  effects :: "action list"
  panicked :: bool
  store :: Config

definition quote :: string where
  "quote = [CHR 0x27]"

definition newline :: string where
  "newline = [CHR 0x0A]"

definition listHeader :: string where
  "listHeader = ''Here are the available commands:'' @ newline"

definition commandLine :: "string \<Rightarrow> string" where
  "commandLine cmd = ''- '' @ cmd @ newline"

definition invalidDeployText :: string where
  "invalidDeployText = ''Invalid deploy command format. Use: deploy <service-name> <env>''"

definition unknownText :: string where
  "unknownText = ''I don't know your message. Please try again.''"

definition jenkinsText :: "bool \<Rightarrow> string \<Rightarrow> string \<Rightarrow> string" where
  "jenkinsText success serviceName env =
     (if success then
        ''Jenkins job for service '' @ quote @ serviceName @ quote @ '' in environment ''
          @ quote @ env @ quote @ '' executed successfully.''
      else
        ''Failed to execute Jenkins job for service '' @ quote @ serviceName @ quote
          @ '' in environment '' @ quote @ env @ quote @ ''.'')"

definition taskText :: "bool \<Rightarrow> string \<Rightarrow> string" where
  "taskText success command =
     (if success then ''Task '' @ quote @ command @ quote @ '' executed successfully.''
      else ''Task '' @ quote @ command @ quote @ '' failed to execute.'')"

text \<open>Lines 141-226: what the handler does with the text and channel of a plain message.\<close>

definition handleMessageText :: "world \<Rightarrow> Config \<Rightarrow> string \<Rightarrow> string \<Rightarrow> run" where
  "handleMessageText w config channelID messageText =
     (if ToLower w messageText = ''list command'' \<or> ToLower w messageText = ''list'' then
        (let commandsList =
               foldl (\<lambda>acc cmd. acc @ commandLine cmd) []
                 (rangeOrder (rangeSeed w) (mapKeys (Tasks config)));
             response = listHeader @ commandsList
         in \<lparr>effects = [PostMessage channelID response], panicked = False, store = config\<rparr>)
      else if prefix ''deploy '' (ToLower w messageText) then
        (let args = Split messageText (CHR '' '')
         in if length args = 3 then
              (let serviceName = args ! 1;
                   env = args ! 2;
                   jenkinsURL0 = Replace (URLFormat (Jenkins config)) ''{service-name}'' serviceName;
                   jenkinsURL = Replace jenkinsURL0 ''{env}'' env;
                   job = executeJenkinsJob w jenkinsURL
                           (JenkinsConfig.User (Jenkins config))
                           (JenkinsConfig.Token (Jenkins config));
                   response = jenkinsText (snd job) serviceName env
               in \<lparr>effects = map HttpDo (fst job) @ [PostMessage channelID response],
                   panicked = False, store = config\<rparr>)
            else
              \<lparr>effects = [PostMessage channelID invalidDeployText],
               panicked = False, store = config\<rparr>)
      else
        (let userCommand = ToLower w messageText
         in case map_of (Tasks config) userCommand of
              Some task \<Rightarrow>
                (case executeTask w task of
                   (sent, Panic) \<Rightarrow>
                     \<lparr>effects = map HttpDo sent, panicked = True, store = config\<rparr>
                 | (sent, Returned success) \<Rightarrow>
                     \<lparr>effects = map HttpDo sent
                                  @ [PostMessage channelID (taskText success (Command task))],
                      panicked = False, store = config\<rparr>)
            | None \<Rightarrow>
                \<lparr>effects = [PostMessage channelID unknownText],
                 panicked = False, store = config\<rparr>))"

text \<open>
  The decoded body is a \<^verbatim>\<open>map[string]interface{}\<close>.  The values
  \<^verbatim>\<open>json.Unmarshal\<close> stores in an \<^verbatim>\<open>interface{}\<close> are nil, bool, float64, string,
  slice and map; the handler never looks inside a number, so \<open>JNumber\<close> carries none.
\<close>

datatype jvalue =
  JNil
| JBool bool
| JNumber
| JString string
| JArray "jvalue list"
| JObject "(string \<times> jvalue) list"

text \<open>Indexing a Go map: a missing key reads as nil.\<close>

definition field :: "(string \<times> jvalue) list \<Rightarrow> string \<Rightarrow> jvalue" where
  "field m k = (case map_of m k of None \<Rightarrow> JNil | Some v \<Rightarrow> v)"

definition silent :: "Config \<Rightarrow> run" where
  "silent config = \<lparr>effects = [], panicked = False, store = config\<rparr>"

definition crashed :: "Config \<Rightarrow> run" where
  "crashed config = \<lparr>effects = [], panicked = True, store = config\<rparr>"

definition handleMessageEvent :: "world \<Rightarrow> (string \<times> jvalue) list \<Rightarrow> Config \<Rightarrow> run" where
  "handleMessageEvent w event config =
     (case field event ''event'' of
        JNil \<Rightarrow> silent config
      | JObject evt \<Rightarrow>
          (if field evt ''bot_id'' \<noteq> JNil then silent config
           else if field evt ''type'' = JString ''message'' \<and> field evt ''subtype'' = JNil then
             (case field evt ''text'' of
                JString messageText \<Rightarrow>
                  (case field evt ''channel'' of
                     JString channelID \<Rightarrow> handleMessageText w config channelID messageText
                   | _ \<Rightarrow> crashed config)
              | _ \<Rightarrow> crashed config)
           else silent config)
      | _ \<Rightarrow> crashed config)"


section \<open>A sample environment\<close>

text \<open>
  Every downstream call answers 200, the URL parser refuses exactly the strings with an
  ASCII control byte (which \<^verbatim>\<open>url.Parse\<close> always refuses), and \<^verbatim>\<open>range\<close> walks a map in
  the order the keys are stored.
\<close>

definition hasCTLByte :: "string \<Rightarrow> bool" where
  "hasCTLByte s = list_ex (\<lambda>c. (of_char c :: nat) < 32 \<or> (of_char c :: nat) = 127) s"

definition sampleWorld :: world where
  "sampleWorld =
     \<lparr>unicodeLower = map lowerByte,
      urlParses = (\<lambda>u. if hasCTLByte u then False else True),
      clientDo = (\<lambda>req. Status 200),
      rangeSeed = [],
      osOpen = (\<lambda>p. if p = ''config.json'' then Inr ''{not json'' else Inl ''no such file''),
      jsonUnmarshal = (\<lambda>b c. (c, Some ''invalid character''))\<rparr>"


section \<open>Observations on a run\<close>

text \<open>The request that lines 268-279 hand on when \<^verbatim>\<open>http.NewRequest\<close> has succeeded.\<close>

definition taskRequest :: "Task \<Rightarrow> request" where
  "taskRequest task =
     (if Method task = ''POST'' then
        \<lparr>reqMethod = ''POST'', reqURL = URL task,
         reqHeader =
           (if Task.User task \<noteq> [] \<and> Task.Token task \<noteq> [] then
              [(''Authorization'',
                ''Basic '' @ EncodeToString (Task.User task @ '':'' @ Task.Token task))]
            else [])\<rparr>
      else \<lparr>reqMethod = ''GET'', reqURL = URL task, reqHeader = []\<rparr>)"

fun requestsOf :: "action list \<Rightarrow> request list" where
  "requestsOf [] = []"
| "requestsOf (HttpDo req # acts) = req # requestsOf acts"
| "requestsOf (PostMessage channelID txt # acts) = requestsOf acts"

fun repliesOf :: "action list \<Rightarrow> (string \<times> string) list" where
  "repliesOf [] = []"
| "repliesOf (HttpDo req # acts) = repliesOf acts"
| "repliesOf (PostMessage channelID txt # acts) = (channelID, txt) # repliesOf acts"

text \<open>A run answered with the command list: its one action is a reply that opens with
  the header of line 150.\<close>

definition listsCommands :: "run \<Rightarrow> bool" where
  "listsCommands r =
     (case effects r of
        [PostMessage channelID txt] \<Rightarrow> prefix listHeader txt
      | _ \<Rightarrow> False)"

text \<open>The Config with every entry stored under \<open>key\<close> taken out of the Task mapping.\<close>

definition withoutKey :: "string \<Rightarrow> Config \<Rightarrow> Config" where
  "withoutKey key config = config\<lparr>Tasks := filter (\<lambda>kv. fst kv \<noteq> key) (Tasks config)\<rparr>"

text \<open>\<^verbatim>\<open>strings.Join\<close> with a one-byte separator, the inverse of \<^const>\<open>Split\<close>.\<close>

fun joinWith :: "char \<Rightarrow> string list \<Rightarrow> string" where
  "joinWith sep [] = []"
| "joinWith sep [t] = t"
| "joinWith sep (t # u # ts) = t @ sep # joinWith sep (u # ts)"


section \<open>The specification's wording, where the source has no counterpart\<close>

text \<open>
  The specification speaks of the "trimmed" text.  The source has no trimming step; this
  is the usual one (leading and trailing ASCII white space removed), for comparison.
\<close>

definition isSpaceByte :: "char \<Rightarrow> bool" where
  "isSpaceByte c = ((of_char c :: nat) = 32 \<or> (9 \<le> (of_char c :: nat) \<and> (of_char c :: nat) \<le> 13))"

definition TrimSpace :: "string \<Rightarrow> string" where
  "TrimSpace s = rev (dropWhile isSpaceByte (rev (dropWhile isSpaceByte s)))"

text \<open>
  The specification describes the deploy URL as the template with the first occurrence of
  each placeholder replaced by its argument.  \<open>templateURL\<close> reads the template once
  from left to right and replaces the first \<^verbatim>\<open>{service-name}\<close> and the first \<^verbatim>\<open>{env}\<close>
  it meets; the flags record which placeholder has been replaced already.
\<close>

fun templateURL :: "bool \<Rightarrow> bool \<Rightarrow> string \<Rightarrow> string \<Rightarrow> string \<Rightarrow> string" where
  "templateURL doneS doneE service env [] = []"
| "templateURL doneS doneE service env (c # cs) =
     (if \<not> doneS \<and> prefix ''{service-name}'' (c # cs) then
        service @ templateURL True doneE service env (drop 13 cs)
      else if \<not> doneE \<and> prefix ''{env}'' (c # cs) then
        env @ templateURL doneS True service env (drop 4 cs)
      else c # templateURL doneS doneE service env cs)"


section \<open>Sample inputs\<close>

definition restartTask :: Task where
  "restartTask =
     \<lparr>Command = ''restart-api'', URL = ''http://x/restart'', Method = ''POST'',
      Task.User = ''u'', Task.Token = ''t''\<rparr>"

definition statusTask :: Task where
  "statusTask =
     \<lparr>Command = ''status'', URL = ''http://x/status'', Method = ''GET'',
      Task.User = [], Task.Token = []\<rparr>"

text \<open>A POST task with credentials whose URL ends in a line feed, which
  \<^verbatim>\<open>url.Parse\<close> refuses as a control character.\<close>

definition brokenTask :: Task where
  "brokenTask =
     \<lparr>Command = ''restart-db'', URL = ''http://x/restart-db'' @ newline, Method = ''POST'',
      Task.User = ''u'', Task.Token = ''t''\<rparr>"

definition sampleJenkins :: JenkinsConfig where
  "sampleJenkins =
     \<lparr>JenkinsConfig.User = [], JenkinsConfig.Token = [],
      URLFormat = ''http://j/job/{service-name}/{env}''\<rparr>"

definition sampleConfig :: Config where
  "sampleConfig =
     \<lparr>SlackToken = ''xoxb'',
      Tasks = [(''restart-api'', restartTask), (''status'', statusTask),
               (''deploy pay prod'', statusTask), (''Status'', restartTask)],
      Jenkins = sampleJenkins\<rparr>"

definition brokenConfig :: Config where
  "brokenConfig =
     \<lparr>SlackToken = ''xoxb'', Tasks = [(''restart-db'', brokenTask)], Jenkins = sampleJenkins\<rparr>"

definition messageEvent :: "string \<Rightarrow> (string \<times> jvalue) list" where
  "messageEvent txt =
     [(''event'', JObject [(''type'', JString ''message''), (''text'', JString txt),
                           (''channel'', JString ''C1'')])]"


section \<open>Facts about the library functions\<close>

lemma lowerByte_not_upper: "\<not> isUpperByte (lowerByte c)"
proof (cases "isUpperByte c")
  case True
  then have "(of_char c :: nat) + 32 < 256"
    by (simp add: isUpperByte_def)
  then have "(of_char (char_of ((of_char c :: nat) + 32)) :: nat) = of_char c + 32"
    by simp
  with True show ?thesis
    by (simp add: lowerByte_def isUpperByte_def)
next
  case False
  then show ?thesis by (simp add: lowerByte_def)
qed

lemma ToLower_no_upper:
  assumes "list_all (\<lambda>c. \<not> isUpperByte c) (unicodeLower w s)"
  shows "list_all (\<lambda>c. \<not> isUpperByte c) (ToLower w s)"
  using assms by (simp add: ToLower_def list_all_iff lowerByte_not_upper)

lemma ToLower_neq_upper_key:
  assumes "list_all (\<lambda>c. \<not> isUpperByte c) (unicodeLower w s)"
    and "list_ex isUpperByte key"
  shows "ToLower w s \<noteq> key"
  using ToLower_no_upper [OF assms(1)] assms(2)
  by (auto simp: list_all_iff list_ex_iff)

lemma map_of_filter_other:
  "k \<noteq> key \<Longrightarrow> map_of (filter (\<lambda>kv. fst kv \<noteq> key) m) k = map_of m k"
  by (induction m) auto

lemma Split_nonempty: "Split s sep \<noteq> []"
  by (induction s) (auto split: list.splits)

lemma Split_no_sep: "tok \<in> set (Split s sep) \<Longrightarrow> sep \<notin> set tok"
  by (induction s arbitrary: tok) (auto split: list.splits if_splits)

lemma joinWith_push: "joinWith sep ((a # t) # ts) = a # joinWith sep (t # ts)"
  by (cases ts) simp_all

lemma Split_join: "joinWith sep (Split s sep) = s"
  by (induction s) (auto split: list.splits simp: Split_nonempty joinWith_push)

lemma Replace_absent: "\<not> sublist old s \<Longrightarrow> Replace s old new = s"
  by (induction s) (auto simp: sublist_Cons_right)

lemma Replace_prefix: "prefix old s \<Longrightarrow> Replace s old new = new @ drop (length old) s"
  by (cases s) auto

lemma Replace_first:
  assumes "\<forall>i < length p. \<not> prefix old (drop i (p @ old @ r))"
  shows "Replace (p @ old @ r) old new = p @ new @ r"
  using assms
proof (induction p)
  case Nil
  show ?case using Replace_prefix [of old "old @ r" new] by simp
next
  case (Cons c p)
  have "\<not> prefix old ((c # p) @ old @ r)" using Cons.prems by force
  moreover have "\<forall>i < length p. \<not> prefix old (drop i (p @ old @ r))"
    using Cons.prems by force
  ultimately show ?case using Cons.IH by simp
qed

lemma rangeOrder_mset: "mset (rangeOrder ns xs) = mset xs"
proof (induction ns xs rule: rangeOrder.induct)
  case (3 n ns x xs)
  let ?ys = "x # xs"
  let ?i = "n mod Suc (length xs)"
  have i: "?i < length ?ys" by simp
  have "mset ?ys = mset (take ?i ?ys @ ?ys ! ?i # drop (Suc ?i) ?ys)"
    using id_take_nth_drop [OF i] by simp
  then show ?case using 3 by (simp add: Let_def)
qed simp_all

lemma commandsList_concat:
  "foldl (\<lambda>acc cmd. acc @ commandLine cmd) a ks = a @ concat (map commandLine ks)"
  by (induction ks arbitrary: a) auto


section \<open>The two executors\<close>

lemma executeJenkinsJob_cases:
  "executeJenkinsJob w url user token =
     (if urlParses w url then
        (let req = \<lparr>reqMethod = ''POST'', reqURL = url,
                    reqHeader = [(''Authorization'',
                                  ''Basic '' @ EncodeToString (user @ '':'' @ token))]\<rparr>
         in ([req], case clientDo w req of TransportError \<Rightarrow> False
                                          | Status code \<Rightarrow> 200 \<le> code \<and> code < 300))
      else ([], False))"
  by (simp add: executeJenkinsJob_def NewRequest_def HeaderAdd_def Let_def split: response.splits)

lemma buildTaskRequest_ok:
  "urlParses w (URL task) \<Longrightarrow> buildTaskRequest w task = Returned (Some (taskRequest task))"
  by (simp add: buildTaskRequest_def NewRequest_def HeaderAdd_def taskRequest_def Let_def)

lemma buildTaskRequest_bad:
  "\<not> urlParses w (URL task) \<Longrightarrow>
   buildTaskRequest w task =
     (if Method task = ''POST'' \<and> Task.User task \<noteq> [] \<and> Task.Token task \<noteq> [] then Panic
      else Returned None)"
  by (simp add: buildTaskRequest_def NewRequest_def Let_def)

lemma executeTask_ok:
  "urlParses w (URL task) \<Longrightarrow>
   executeTask w task =
     ([taskRequest task],
      Returned (case clientDo w (taskRequest task) of TransportError \<Rightarrow> False
                | Status code \<Rightarrow> 200 \<le> code \<and> code < 300))"
  by (simp add: executeTask_def buildTaskRequest_ok split: response.splits)

lemma executeTask_bad:
  "\<not> urlParses w (URL task) \<Longrightarrow>
   executeTask w task =
     ([], if Method task = ''POST'' \<and> Task.User task \<noteq> [] \<and> Task.Token task \<noteq> [] then Panic
          else Returned False)"
  by (simp add: executeTask_def buildTaskRequest_bad)

lemma sample_urlParses_broken: "\<not> urlParses sampleWorld (URL brokenTask)"
  by (simp add: sampleWorld_def brokenTask_def hasCTLByte_def newline_def)

text \<open>
  C5.  executeTask does not always return a boolean.  For a task with method "POST",
  non-empty user and token, and a URL that \<^verbatim>\<open>http.NewRequest\<close> refuses, the source adds
  the Authorization header to the nil request before it checks the error: the call
  panics, nothing is sent and nothing is returned.
\<close>

theorem executeTask_nil_request_panics:
  "executeTask sampleWorld brokenTask = ([], Panic)"
  using sample_urlParses_broken
  by (simp add: executeTask_def buildTaskRequest_def NewRequest_def brokenTask_def)

text \<open>
  C6.  Both executors classify alike.  executeJenkinsJob returns true, and executeTask
  returns true, exactly when one request went out and the downstream answered it with a
  status code from 200 to 299.  Once executeTask has sent its request it returns a
  boolean, which is false for every other status code and for a transport error.
\<close>

theorem status_classification:
  "(snd (executeJenkinsJob w url user token) \<longleftrightarrow>
      (\<exists>req code. fst (executeJenkinsJob w url user token) = [req]
          \<and> clientDo w req = Status code \<and> 200 \<le> code \<and> code \<le> 299))
   \<and> (snd (executeTask w task) = Returned True \<longleftrightarrow>
      (\<exists>req code. fst (executeTask w task) = [req]
          \<and> clientDo w req = Status code \<and> 200 \<le> code \<and> code \<le> 299))
   \<and> (\<forall>req. fst (executeTask w task) = [req] \<longrightarrow>
         snd (executeTask w task)
           = Returned (\<exists>code. clientDo w req = Status code \<and> 200 \<le> code \<and> code \<le> 299))"
proof (intro conjI)
  show "snd (executeJenkinsJob w url user token) \<longleftrightarrow>
      (\<exists>req code. fst (executeJenkinsJob w url user token) = [req]
          \<and> clientDo w req = Status code \<and> 200 \<le> code \<and> code \<le> 299)"
    by (cases "urlParses w url")
       (auto simp: executeJenkinsJob_cases Let_def split: response.splits)
next
  show "snd (executeTask w task) = Returned True \<longleftrightarrow>
      (\<exists>req code. fst (executeTask w task) = [req]
          \<and> clientDo w req = Status code \<and> 200 \<le> code \<and> code \<le> 299)"
    by (cases "urlParses w (URL task)")
       (auto simp: executeTask_ok executeTask_bad split: response.splits)
next
  show "\<forall>req. fst (executeTask w task) = [req] \<longrightarrow>
         snd (executeTask w task)
           = Returned (\<exists>code. clientDo w req = Status code \<and> 200 \<le> code \<and> code \<le> 299)"
    by (cases "urlParses w (URL task)")
       (auto simp: executeTask_ok executeTask_bad split: response.splits)
qed


section \<open>Loading the configuration\<close>

text \<open>
  C7.  loadConfig returns an error exactly when the file cannot be opened.  Once the
  file is open it returns the Config as the decoder left it, whether or not the decoder
  reported an error.
\<close>

theorem loadConfig_error_iff_open_fails:
  "((\<exists>err. loadConfig w filePath = Inl err) \<longleftrightarrow> (\<exists>err. osOpen w filePath = Inl err))
   \<and> (\<forall>byteValue. osOpen w filePath = Inr byteValue \<longrightarrow>
          loadConfig w filePath = Inr (fst (jsonUnmarshal w byteValue zeroConfig)))"
  by (auto simp: loadConfig_def split: sum.splits)

theorem loadConfig_error_iff_open_fails_witness:
  "osOpen sampleWorld ''config.json'' = Inr ''{not json''
   \<and> snd (jsonUnmarshal sampleWorld ''{not json'' zeroConfig) = Some ''invalid character''
   \<and> loadConfig sampleWorld ''config.json'' = Inr zeroConfig
   \<and> loadConfig sampleWorld ''missing.json'' = Inl ''no such file''"
proof -
  have opened: "osOpen sampleWorld ''config.json'' = Inr ''{not json''"
    by (simp add: sampleWorld_def)
  have failed: "\<exists>err. osOpen sampleWorld ''missing.json'' = Inl err"
    by (simp add: sampleWorld_def)
  have "loadConfig sampleWorld ''config.json''
          = Inr (fst (jsonUnmarshal sampleWorld ''{not json'' zeroConfig))"
    using loadConfig_error_iff_open_fails [of sampleWorld "''config.json''"] opened by blast
  moreover have "\<exists>err. loadConfig sampleWorld ''missing.json'' = Inl err"
    using loadConfig_error_iff_open_fails [of sampleWorld "''missing.json''"] failed by blast
  ultimately show ?thesis
    using opened by (auto simp: sampleWorld_def loadConfig_def)
qed


section \<open>The branches of the message handler\<close>

lemma deploy_is_not_list:
  "prefix ''deploy '' s \<Longrightarrow> s \<noteq> ''list command'' \<and> s \<noteq> ''list''"
  by auto

lemma handle_list:
  assumes "ToLower w messageText = ''list command'' \<or> ToLower w messageText = ''list''"
  shows "handleMessageText w config channelID messageText =
           \<lparr>effects = [PostMessage channelID
                         (listHeader @ concat (map commandLine
                            (rangeOrder (rangeSeed w) (mapKeys (Tasks config)))))],
            panicked = False, store = config\<rparr>"
  using assms unfolding handleMessageText_def
  by (simp only: if_True Let_def commandsList_concat append_Nil)

lemma handle_deploy:
  assumes "prefix ''deploy '' (ToLower w messageText)"
  shows "handleMessageText w config channelID messageText =
     (let args = Split messageText (CHR '' '')
      in if length args = 3 then
           (let job = executeJenkinsJob w
                        (Replace (Replace (URLFormat (Jenkins config)) ''{service-name}'' (args ! 1))
                           ''{env}'' (args ! 2))
                        (JenkinsConfig.User (Jenkins config))
                        (JenkinsConfig.Token (Jenkins config))
            in \<lparr>effects = map HttpDo (fst job)
                   @ [PostMessage channelID (jenkinsText (snd job) (args ! 1) (args ! 2))],
                panicked = False, store = config\<rparr>)
         else \<lparr>effects = [PostMessage channelID invalidDeployText],
               panicked = False, store = config\<rparr>)"
proof -
  have "\<not> (ToLower w messageText = ''list command'' \<or> ToLower w messageText = ''list'')"
    using deploy_is_not_list [OF assms] by blast
  then show ?thesis
    unfolding handleMessageText_def using assms
    by (simp only: if_False if_True Let_def)
qed

lemma handle_static:
  assumes "\<not> (ToLower w messageText = ''list command'' \<or> ToLower w messageText = ''list'')"
    and "\<not> prefix ''deploy '' (ToLower w messageText)"
  shows "handleMessageText w config channelID messageText =
     (case map_of (Tasks config) (ToLower w messageText) of
        Some task \<Rightarrow>
          (case executeTask w task of
             (sent, Panic) \<Rightarrow> \<lparr>effects = map HttpDo sent, panicked = True, store = config\<rparr>
           | (sent, Returned success) \<Rightarrow>
               \<lparr>effects = map HttpDo sent
                            @ [PostMessage channelID (taskText success (Command task))],
                panicked = False, store = config\<rparr>)
      | None \<Rightarrow>
          \<lparr>effects = [PostMessage channelID unknownText], panicked = False, store = config\<rparr>)"
  unfolding handleMessageText_def using assms
  by (simp only: if_False Let_def)


section \<open>Deploy commands\<close>

lemma requestsOf_sent: "requestsOf (map HttpDo sent @ [PostMessage channelID txt]) = sent"
  by (induction sent) simp_all

lemma repliesOf_sent: "repliesOf (map HttpDo sent @ [PostMessage channelID txt]) = [(channelID, txt)]"
  by (induction sent) simp_all

text \<open>
  C1.  When the lowercased text starts with "deploy ": if the raw text splits on single
  spaces into exactly three tokens, the handler runs the Jenkins job for the second and
  third token, in the casing the caller typed, and replies with its result; if the
  number of tokens is not three, its only action is the reply that the format is
  invalid.  Both hold whatever the Task mapping holds, also when the lowercased text is
  one of its keys; and such a text is never a list request.
\<close>

theorem deploy_resolution:
  assumes "prefix ''deploy '' (ToLower w messageText)"
  shows "(\<forall>a serviceName env. Split messageText (CHR '' '') = [a, serviceName, env] \<longrightarrow>
            handleMessageText w config channelID messageText =
              (let job = executeJenkinsJob w
                           (Replace (Replace (URLFormat (Jenkins config))
                                       ''{service-name}'' serviceName) ''{env}'' env)
                           (JenkinsConfig.User (Jenkins config))
                           (JenkinsConfig.Token (Jenkins config))
               in \<lparr>effects = map HttpDo (fst job)
                      @ [PostMessage channelID (jenkinsText (snd job) serviceName env)],
                   panicked = False, store = config\<rparr>))
       \<and> (length (Split messageText (CHR '' '')) \<noteq> 3 \<longrightarrow>
            handleMessageText w config channelID messageText =
              \<lparr>effects = [PostMessage channelID invalidDeployText],
               panicked = False, store = config\<rparr>)"
  by (simp add: handle_deploy [OF assms] Let_def)

lemma sample_lower_deploy: "ToLower sampleWorld ''Deploy Pay Prod'' = ''deploy pay prod''"
  by (simp add: ToLower_def isASCII_def lowerByte_def isUpperByte_def char_of_def bit_0)

lemma sample_job:
  "executeJenkinsJob sampleWorld ''http://j/job/Pay/Prod'' [] [] =
     ([\<lparr>reqMethod = ''POST'', reqURL = ''http://j/job/Pay/Prod'',
        reqHeader = [(''Authorization'', ''Basic Og=='')]\<rparr>], True)"
  by (simp add: executeJenkinsJob_cases sampleWorld_def hasCTLByte_def sextet_def encodeStd_def)

theorem deploy_resolution_witness:
  "map_of (Tasks sampleConfig) (ToLower sampleWorld ''Deploy Pay Prod'') = Some statusTask
   \<and> handleMessageText sampleWorld sampleConfig ''C1'' ''Deploy Pay Prod'' =
       \<lparr>effects = [HttpDo \<lparr>reqMethod = ''POST'', reqURL = ''http://j/job/Pay/Prod'',
                           reqHeader = [(''Authorization'', ''Basic Og=='')]\<rparr>,
                   PostMessage ''C1'' (jenkinsText True ''Pay'' ''Prod'')],
        panicked = False, store = sampleConfig\<rparr>
   \<and> handleMessageText sampleWorld sampleConfig ''C1'' ''deploy payments'' =
       \<lparr>effects = [PostMessage ''C1'' invalidDeployText],
        panicked = False, store = sampleConfig\<rparr>"
proof -
  have p1: "prefix ''deploy '' (ToLower sampleWorld ''Deploy Pay Prod'')"
    by (simp add: sample_lower_deploy)
  have s1: "Split ''Deploy Pay Prod'' (CHR '' '') = [''Deploy'', ''Pay'', ''Prod'']"
    by simp
  have p2: "prefix ''deploy '' (ToLower sampleWorld ''deploy payments'')"
    by (simp add: ToLower_def isASCII_def lowerByte_def isUpperByte_def)
  have s2: "length (Split ''deploy payments'' (CHR '' '')) \<noteq> 3"
    by simp
  have url: "Replace (Replace (URLFormat (Jenkins sampleConfig)) ''{service-name}'' ''Pay'')
               ''{env}'' ''Prod'' = ''http://j/job/Pay/Prod''"
    by (simp add: sampleConfig_def sampleJenkins_def)
  have creds: "JenkinsConfig.User (Jenkins sampleConfig) = []"
              "JenkinsConfig.Token (Jenkins sampleConfig) = []"
    by (simp_all add: sampleConfig_def sampleJenkins_def)
  have key: "map_of (Tasks sampleConfig) (ToLower sampleWorld ''Deploy Pay Prod'') = Some statusTask"
    by (simp add: sample_lower_deploy sampleConfig_def)
  have "handleMessageText sampleWorld sampleConfig ''C1'' ''Deploy Pay Prod'' =
       \<lparr>effects = [HttpDo \<lparr>reqMethod = ''POST'', reqURL = ''http://j/job/Pay/Prod'',
                           reqHeader = [(''Authorization'', ''Basic Og=='')]\<rparr>,
                   PostMessage ''C1'' (jenkinsText True ''Pay'' ''Prod'')],
        panicked = False, store = sampleConfig\<rparr>"
    using deploy_resolution [OF p1, of sampleConfig "''C1''"] s1
    by (simp only: url creds sample_job Let_def fst_conv snd_conv list.map append.simps)
  moreover have "handleMessageText sampleWorld sampleConfig ''C1'' ''deploy payments'' =
       \<lparr>effects = [PostMessage ''C1'' invalidDeployText],
        panicked = False, store = sampleConfig\<rparr>"
    using deploy_resolution [OF p2, of sampleConfig "''C1''"] s2 by blast
  ultimately show ?thesis using key by blast
qed


section \<open>List requests\<close>

lemma jenkins_sent_cases:
  "fst (executeJenkinsJob w url user token) = [] \<or>
   (\<exists>req. fst (executeJenkinsJob w url user token) = [req])"
  by (simp add: executeJenkinsJob_cases Let_def)

lemma task_sent_cases:
  "fst (executeTask w task) = [] \<or> (\<exists>req. fst (executeTask w task) = [req])"
  by (cases "urlParses w (URL task)") (simp_all add: executeTask_ok executeTask_bad)

lemma not_header_jenkinsText: "\<not> prefix listHeader (jenkinsText b s e)"
  by (simp add: listHeader_def jenkinsText_def)

lemma not_header_taskText: "\<not> prefix listHeader (taskText b c)"
  by (simp add: listHeader_def taskText_def)

lemma not_header_fixed:
  "\<not> prefix listHeader invalidDeployText" "\<not> prefix listHeader unknownText"
  by (simp_all add: listHeader_def invalidDeployText_def unknownText_def)

lemma sent_not_listed:
  assumes "sent = [] \<or> (\<exists>req. sent = [req])" and "\<not> prefix listHeader txt"
  shows "\<not> listsCommands \<lparr>effects = map HttpDo sent @ [PostMessage channelID txt],
                            panicked = p, store = config\<rparr>"
  using assms by (auto simp: listsCommands_def)

lemma deploy_not_listed:
  assumes "prefix ''deploy '' (ToLower w messageText)"
  shows "\<not> listsCommands (handleMessageText w config channelID messageText)"
proof (cases "length (Split messageText (CHR '' '')) = 3")
  case True
  then show ?thesis
    by (simp add: handle_deploy [OF assms] Let_def
          sent_not_listed [OF jenkins_sent_cases not_header_jenkinsText])
next
  case False
  then show ?thesis
    by (simp add: handle_deploy [OF assms] Let_def listsCommands_def not_header_fixed)
qed

lemma static_not_listed:
  assumes "\<not> (ToLower w messageText = ''list command'' \<or> ToLower w messageText = ''list'')"
    and "\<not> prefix ''deploy '' (ToLower w messageText)"
  shows "\<not> listsCommands (handleMessageText w config channelID messageText)"
proof (cases "map_of (Tasks config) (ToLower w messageText)")
  case None
  then show ?thesis
    by (simp add: handle_static [OF assms] listsCommands_def not_header_fixed)
next
  case (Some task)
  show ?thesis
  proof (cases "urlParses w (URL task)")
    case True
    then show ?thesis
      by (simp add: handle_static [OF assms] Some executeTask_ok listsCommands_def)
  next
    case False
    then show ?thesis
      by (simp add: handle_static [OF assms] Some executeTask_bad listsCommands_def
            not_header_taskText)
  qed
qed

text \<open>
  C2, as amended.  The handler answers with the command list exactly when the lowercased
  message text, as received and not trimmed, equals "list" or "list command".
\<close>

theorem list_resolution:
  "listsCommands (handleMessageText w config channelID messageText) \<longleftrightarrow>
     (ToLower w messageText = ''list'' \<or> ToLower w messageText = ''list command'')"
proof (cases "ToLower w messageText = ''list command'' \<or> ToLower w messageText = ''list''")
  case True
  then show ?thesis
    by (auto simp: handle_list listsCommands_def)
next
  case False
  then show ?thesis
    using deploy_not_listed static_not_listed by blast
qed

lemma sample_lower_LIST: "ToLower sampleWorld ''LIST'' = ''list''"
  by (simp add: ToLower_def isASCII_def lowerByte_def isUpperByte_def char_of_def bit_0)

theorem list_resolution_witness:
  "listsCommands (handleMessageText sampleWorld sampleConfig ''C1'' ''LIST'')"
  using list_resolution [of sampleWorld sampleConfig "''C1''" "''LIST''"] sample_lower_LIST
  by simp

lemma sample_lower_padded: "ToLower sampleWorld '' list'' = '' list''"
  by (simp add: ToLower_def isASCII_def lowerByte_def isUpperByte_def)

text \<open>
  C2 as stated fails: the text " list" trims and lowercases to "list", yet the handler
  does not list the commands; it answers that it does not know the message.
\<close>

theorem trimmed_list_not_listed:
  "ToLower sampleWorld (TrimSpace '' list'') = ''list''
   \<and> \<not> listsCommands (handleMessageText sampleWorld sampleConfig ''C1'' '' list'')
   \<and> effects (handleMessageText sampleWorld sampleConfig ''C1'' '' list'')
        = [PostMessage ''C1'' unknownText]"
proof -
  have trim: "TrimSpace '' list'' = ''list''"
    by (simp add: TrimSpace_def isSpaceByte_def)
  have low: "ToLower sampleWorld ''list'' = ''list''"
    by (simp add: ToLower_def isASCII_def lowerByte_def isUpperByte_def)
  have a: "\<not> (ToLower sampleWorld '' list'' = ''list command'' \<or> ToLower sampleWorld '' list'' = ''list'')"
    by (simp add: sample_lower_padded)
  have b: "\<not> prefix ''deploy '' (ToLower sampleWorld '' list'')"
    by (simp add: sample_lower_padded)
  have c: "map_of (Tasks sampleConfig) (ToLower sampleWorld '' list'') = None"
    by (simp add: sample_lower_padded sampleConfig_def)
  have eff: "effects (handleMessageText sampleWorld sampleConfig ''C1'' '' list'')
        = [PostMessage ''C1'' unknownText]"
    by (simp add: handle_static [OF a b] c)
  then show ?thesis
    by (simp add: trim low listsCommands_def not_header_fixed)
qed


section \<open>Requests for static tasks\<close>

lemma taskRequest_props:
  "reqURL (taskRequest task) = URL task
   \<and> (reqMethod (taskRequest task) = ''POST'' \<longleftrightarrow> Method task = ''POST'')
   \<and> (reqMethod (taskRequest task) = ''GET'' \<longleftrightarrow> Method task \<noteq> ''POST'')
   \<and> (reqHeader (taskRequest task)
          = [(''Authorization'',
              ''Basic '' @ EncodeToString (Task.User task @ '':'' @ Task.Token task))]
        \<longleftrightarrow> Method task = ''POST'' \<and> Task.User task \<noteq> [] \<and> Task.Token task \<noteq> [])
   \<and> (reqHeader (taskRequest task) = []
        \<longleftrightarrow> \<not> (Method task = ''POST'' \<and> Task.User task \<noteq> [] \<and> Task.Token task \<noteq> []))"
  by (simp add: taskRequest_def)

text \<open>
  C3.  Every request executeTask sends goes to the task's URL; its method is POST exactly
  when the task's method field is the string "POST" and GET for every other value; it
  carries the one header Authorization: "Basic " + base64(user + ":" + token) exactly when
  the method is POST and user and token are both non-empty, and no header at all
  otherwise, so never on a GET.  When the URL parses, one such request is sent.
\<close>

theorem static_task_request:
  "(urlParses w (URL task) \<longrightarrow> (\<exists>req. fst (executeTask w task) = [req]))
   \<and> (\<forall>req \<in> set (fst (executeTask w task)).
         reqURL req = URL task
       \<and> (reqMethod req = ''POST'' \<longleftrightarrow> Method task = ''POST'')
       \<and> (reqMethod req = ''GET'' \<longleftrightarrow> Method task \<noteq> ''POST'')
       \<and> (reqHeader req
             = [(''Authorization'',
                 ''Basic '' @ EncodeToString (Task.User task @ '':'' @ Task.Token task))]
           \<longleftrightarrow> Method task = ''POST'' \<and> Task.User task \<noteq> [] \<and> Task.Token task \<noteq> [])
       \<and> (reqHeader req = []
           \<longleftrightarrow> \<not> (Method task = ''POST'' \<and> Task.User task \<noteq> [] \<and> Task.Token task \<noteq> [])))"
proof (cases "urlParses w (URL task)")
  case True
  then have "fst (executeTask w task) = [taskRequest task]"
    by (simp add: executeTask_ok)
  then show ?thesis
    using taskRequest_props [of task] by simp
next
  case False
  then have "fst (executeTask w task) = []"
    by (simp add: executeTask_bad)
  then show ?thesis using False by simp
qed

lemma sample_urlParses_restart: "urlParses sampleWorld (URL restartTask)"
  by (simp add: sampleWorld_def restartTask_def hasCTLByte_def)

lemma sample_urlParses_status: "urlParses sampleWorld (URL statusTask)"
  by (simp add: sampleWorld_def statusTask_def hasCTLByte_def)

lemma sample_basic: "EncodeToString (''u'' @ '':'' @ ''t'') = ''dTp0''"
  by (simp add: sextet_def encodeStd_def)

theorem static_task_request_witness:
  "(\<exists>req. fst (executeTask sampleWorld restartTask) = [req]
       \<and> reqMethod req = ''POST'' \<and> reqURL req = ''http://x/restart''
       \<and> reqHeader req = [(''Authorization'', ''Basic dTp0'')])
   \<and> (\<exists>req. fst (executeTask sampleWorld statusTask) = [req]
       \<and> reqMethod req = ''GET'' \<and> reqHeader req = [])"
proof -
  have r: "Method restartTask = ''POST''" "Task.User restartTask = ''u''"
      "Task.Token restartTask = ''t''" "URL restartTask = ''http://x/restart''"
    by (simp_all add: restartTask_def)
  have s: "Method statusTask \<noteq> ''POST''"
    by (simp add: statusTask_def)
  from static_task_request [of sampleWorld restartTask] sample_urlParses_restart
  obtain req where "fst (executeTask sampleWorld restartTask) = [req]"
    and "reqMethod req = ''POST''" and "reqURL req = ''http://x/restart''"
    and "reqHeader req = [(''Authorization'', ''Basic dTp0'')]"
    using r sample_basic by auto
  moreover
  from static_task_request [of sampleWorld statusTask] sample_urlParses_status
  obtain req' where "fst (executeTask sampleWorld statusTask) = [req']"
    and "reqMethod req' = ''GET''" and "reqHeader req' = []"
    using s by auto
  ultimately show ?thesis by blast
qed

theorem status_classification_witness:
  "snd (executeJenkinsJob sampleWorld ''http://j/job/Pay/Prod'' [] [])
   \<and> snd (executeTask sampleWorld restartTask) = Returned True
   \<and> snd (executeTask (sampleWorld\<lparr>clientDo := (\<lambda>req. Status 404)\<rparr>) restartTask) = Returned False
   \<and> snd (executeTask (sampleWorld\<lparr>clientDo := (\<lambda>req. TransportError)\<rparr>) restartTask) = Returned False"
proof -
  let ?w404 = "sampleWorld\<lparr>clientDo := (\<lambda>req. Status 404)\<rparr>"
  let ?wErr = "sampleWorld\<lparr>clientDo := (\<lambda>req. TransportError)\<rparr>"
  have ok: "clientDo sampleWorld req = Status 200" for req
    by (simp add: sampleWorld_def)
  have j: "fst (executeJenkinsJob sampleWorld ''http://j/job/Pay/Prod'' [] [])
             = [\<lparr>reqMethod = ''POST'', reqURL = ''http://j/job/Pay/Prod'',
                 reqHeader = [(''Authorization'', ''Basic Og=='')]\<rparr>]"
    by (simp add: sample_job)
  have t: "fst (executeTask sampleWorld restartTask) = [taskRequest restartTask]"
    by (simp add: executeTask_ok sample_urlParses_restart)
  have t404: "fst (executeTask ?w404 restartTask) = [taskRequest restartTask]"
    using sample_urlParses_restart by (simp add: executeTask_ok sampleWorld_def)
  have tErr: "fst (executeTask ?wErr restartTask) = [taskRequest restartTask]"
    using sample_urlParses_restart by (simp add: executeTask_ok sampleWorld_def)
  have "snd (executeJenkinsJob sampleWorld ''http://j/job/Pay/Prod'' [] [])"
    using status_classification [of sampleWorld "''http://j/job/Pay/Prod''" "[]" "[]"] j ok
    by simp
  moreover have "snd (executeTask sampleWorld restartTask) = Returned True"
    using status_classification [of sampleWorld _ _ _ restartTask] t ok by simp
  moreover have "snd (executeTask ?w404 restartTask) = Returned False"
    using status_classification [of ?w404 _ _ _ restartTask] t404 by simp
  moreover have "snd (executeTask ?wErr restartTask) = Returned False"
    using status_classification [of ?wErr _ _ _ restartTask] tErr by simp
  ultimately show ?thesis by blast
qed


section \<open>Requests for deployments\<close>

text \<open>
  C4, as amended.  For every deploy invocation the handler sends at most one request, and
  none when the URL does not parse.  The request is a POST and carries the header
  Authorization: "Basic " + base64(user + ":" + token) from the Jenkins configuration,
  also when both are empty.  Its URL is the url_format with the first "{service-name}"
  replaced by the service argument and then, in the resulting string, the first "{env}"
  replaced by the env argument, with no validation of either argument.
\<close>

theorem deploy_request:
  assumes "prefix ''deploy '' (ToLower w messageText)"
    and "Split messageText (CHR '' '') = [a, serviceName, env]"
  shows "requestsOf (effects (handleMessageText w config channelID messageText)) =
     (let url = Replace (Replace (URLFormat (Jenkins config)) ''{service-name}'' serviceName)
                  ''{env}'' env
      in if urlParses w url then
           [\<lparr>reqMethod = ''POST'', reqURL = url,
             reqHeader = [(''Authorization'',
                           ''Basic '' @ EncodeToString (JenkinsConfig.User (Jenkins config)
                                          @ '':'' @ JenkinsConfig.Token (Jenkins config)))]\<rparr>]
         else [])"
  using assms(2)
  by (simp add: handle_deploy [OF assms(1)] Let_def requestsOf_sent executeJenkinsJob_cases)

lemma sample_lower_deploy_env: "ToLower sampleWorld ''deploy {env} prod'' = ''deploy {env} prod''"
  by (simp add: ToLower_def isASCII_def lowerByte_def isUpperByte_def)

lemma sample_template: "URLFormat (Jenkins sampleConfig) = ''http://j/job/{service-name}/{env}''"
  by (simp add: sampleConfig_def sampleJenkins_def)

lemma sample_no_creds:
  "JenkinsConfig.User (Jenkins sampleConfig) = []" "JenkinsConfig.Token (Jenkins sampleConfig) = []"
  by (simp_all add: sampleConfig_def sampleJenkins_def)

lemma sample_basic_empty: "EncodeToString ([] @ '':'' @ []) = ''Og==''"
  by (simp add: sextet_def encodeStd_def)

theorem deploy_request_witness:
  "requestsOf (effects (handleMessageText sampleWorld sampleConfig ''C1'' ''Deploy Pay Prod'')) =
     [\<lparr>reqMethod = ''POST'', reqURL = ''http://j/job/Pay/Prod'',
       reqHeader = [(''Authorization'', ''Basic Og=='')]\<rparr>]"
proof -
  have p: "prefix ''deploy '' (ToLower sampleWorld ''Deploy Pay Prod'')"
    by (simp add: sample_lower_deploy)
  have s: "Split ''Deploy Pay Prod'' (CHR '' '') = [''Deploy'', ''Pay'', ''Prod'']"
    by simp
  have url: "Replace (Replace (URLFormat (Jenkins sampleConfig)) ''{service-name}'' ''Pay'')
               ''{env}'' ''Prod'' = ''http://j/job/Pay/Prod''"
    by (simp add: sample_template)
  have ok: "urlParses sampleWorld ''http://j/job/Pay/Prod''"
    by (simp add: sampleWorld_def hasCTLByte_def)
  show ?thesis
    using deploy_request [OF p s, of sampleConfig "''C1''"] ok
    by (simp add: url Let_def sample_no_creds sample_basic_empty [simplified])
qed

text \<open>
  C4 as stated fails: the second replacement works on the result of the first.  With the
  template "http://j/job/{service-name}/{env}" the message "deploy {env} prod" is sent to
  "http://j/job/prod/{env}", while the template with each placeholder replaced by its
  argument is "http://j/job/{env}/prod".
\<close>

theorem deploy_url_not_template:
  "requestsOf (effects (handleMessageText sampleWorld sampleConfig ''C1'' ''deploy {env} prod'')) =
     [\<lparr>reqMethod = ''POST'', reqURL = ''http://j/job/prod/{env}'',
       reqHeader = [(''Authorization'', ''Basic Og=='')]\<rparr>]
   \<and> templateURL False False ''{env}'' ''prod'' (URLFormat (Jenkins sampleConfig))
        = ''http://j/job/{env}/prod''"
proof -
  have p: "prefix ''deploy '' (ToLower sampleWorld ''deploy {env} prod'')"
    by (simp add: sample_lower_deploy_env)
  have s: "Split ''deploy {env} prod'' (CHR '' '') = [''deploy'', ''{env}'', ''prod'']"
    by simp
  have url: "Replace (Replace (URLFormat (Jenkins sampleConfig)) ''{service-name}'' ''{env}'')
               ''{env}'' ''prod'' = ''http://j/job/prod/{env}''"
    by (simp add: sample_template)
  have ok: "urlParses sampleWorld ''http://j/job/prod/{env}''"
    by (simp add: sampleWorld_def hasCTLByte_def)
  have "requestsOf (effects (handleMessageText sampleWorld sampleConfig ''C1'' ''deploy {env} prod'')) =
     [\<lparr>reqMethod = ''POST'', reqURL = ''http://j/job/prod/{env}'',
       reqHeader = [(''Authorization'', ''Basic Og=='')]\<rparr>]"
    using s ok
    by (simp add: handle_deploy [OF p] Let_def requestsOf_sent executeJenkinsJob_cases url
          sample_no_creds sample_basic_empty [simplified])
  moreover have "templateURL False False ''{env}'' ''prod'' (URLFormat (Jenkins sampleConfig))
        = ''http://j/job/{env}/prod''"
    by (simp add: sample_template)
  ultimately show ?thesis by blast
qed


section \<open>One event, one answer\<close>

text \<open>
  An event that carries a bot_id or a subtype, or whose type is not "message", leaves no
  action behind.
\<close>

lemma filtered_event_silent:
  assumes "field event ''event'' = JObject evt"
    and "field evt ''bot_id'' \<noteq> JNil \<or> field evt ''subtype'' \<noteq> JNil
         \<or> field evt ''type'' \<noteq> JString ''message''"
  shows "handleMessageEvent w event config = silent config"
  using assms by (auto simp: handleMessageEvent_def)

lemma plain_event_handled:
  assumes "field event ''event'' = JObject evt"
    and "field evt ''bot_id'' = JNil" and "field evt ''subtype'' = JNil"
    and "field evt ''type'' = JString ''message''"
    and "field evt ''text'' = JString messageText"
    and "field evt ''channel'' = JString channelID"
  shows "handleMessageEvent w event config = handleMessageText w config channelID messageText"
  using assms by (simp add: handleMessageEvent_def)

lemma jenkins_sent_length: "length (fst (executeJenkinsJob w url user token)) \<le> Suc 0"
  by (simp add: executeJenkinsJob_cases Let_def)

text \<open>
  A plain message is answered with exactly one reply and at most one request, unless the
  handler panics.
\<close>

lemma one_reply_unless_panic:
  assumes "\<not> panicked (handleMessageText w config channelID messageText)"
  shows "(\<exists>txt. repliesOf (effects (handleMessageText w config channelID messageText))
                  = [(channelID, txt)])
         \<and> length (requestsOf (effects (handleMessageText w config channelID messageText))) \<le> 1"
proof (cases "ToLower w messageText = ''list command'' \<or> ToLower w messageText = ''list''")
  case True
  then show ?thesis by (simp add: handle_list)
next
  case notlist: False
  show ?thesis
  proof (cases "prefix ''deploy '' (ToLower w messageText)")
    case True
    show ?thesis
      by (simp add: handle_deploy [OF True] Let_def repliesOf_sent requestsOf_sent
            jenkins_sent_length)
  next
    case False
    note hs = handle_static [OF notlist False]
    show ?thesis
    proof (cases "map_of (Tasks config) (ToLower w messageText)")
      case None
      then show ?thesis by (simp add: hs)
    next
      case (Some task)
      show ?thesis
      proof (cases "urlParses w (URL task)")
        case True
        then show ?thesis
          by (simp add: hs Some executeTask_ok repliesOf_sent requestsOf_sent)
      next
        case False
        then show ?thesis
          using assms by (simp add: hs Some executeTask_bad split: if_splits)
      qed
    qed
  qed
qed

lemma sample_lower_restart_db: "ToLower sampleWorld ''restart-db'' = ''restart-db''"
  by (simp add: ToLower_def isASCII_def lowerByte_def isUpperByte_def)

text \<open>
  C8.  A plain human-authored message does not always produce one outbound action.  When
  the text names a POST task with credentials whose URL does not parse, executeTask
  panics inside the handler: no request is sent and no reply is posted.
\<close>

theorem plain_message_without_reply:
  "handleMessageEvent sampleWorld (messageEvent ''restart-db'') brokenConfig
     = \<lparr>effects = [], panicked = True, store = brokenConfig\<rparr>"
proof -
  have a: "\<not> (ToLower sampleWorld ''restart-db'' = ''list command''
              \<or> ToLower sampleWorld ''restart-db'' = ''list'')"
    by (simp add: sample_lower_restart_db)
  have b: "\<not> prefix ''deploy '' (ToLower sampleWorld ''restart-db'')"
    by (simp add: sample_lower_restart_db)
  have c: "map_of (Tasks brokenConfig) (ToLower sampleWorld ''restart-db'') = Some brokenTask"
    by (simp add: sample_lower_restart_db brokenConfig_def)
  have d: "executeTask sampleWorld brokenTask = ([], Panic)"
    using sample_urlParses_broken by (simp add: executeTask_bad brokenTask_def)
  have "handleMessageText sampleWorld brokenConfig ''C1'' ''restart-db''
          = \<lparr>effects = [], panicked = True, store = brokenConfig\<rparr>"
    by (simp add: handle_static [OF a b] c d)
  moreover have "handleMessageEvent sampleWorld (messageEvent ''restart-db'') brokenConfig
          = handleMessageText sampleWorld brokenConfig ''C1'' ''restart-db''"
    by (rule plain_event_handled [where evt = "[(''type'', JString ''message''),
            (''text'', JString ''restart-db''), (''channel'', JString ''C1'')]"])
       (simp_all add: messageEvent_def field_def)
  ultimately show ?thesis by simp
qed


section \<open>Listing the commands\<close>

lemma mapKeys_set: "set (mapKeys m) = fst ` set m" and mapKeys_distinct: "distinct (mapKeys m)"
  by (simp_all add: mapKeys_def)

lemma rangeOrder_keys:
  "distinct (rangeOrder ns (mapKeys m)) \<and> set (rangeOrder ns (mapKeys m)) = fst ` set m"
proof -
  have m: "mset (rangeOrder ns (mapKeys m)) = mset (mapKeys m)"
    by (rule rangeOrder_mset)
  have "distinct (rangeOrder ns (mapKeys m))"
    using mset_eq_imp_distinct_iff [OF m] by (simp add: mapKeys_distinct)
  moreover have "set (rangeOrder ns (mapKeys m)) = fst ` set m"
    using mset_eq_setD [OF m] by (simp add: mapKeys_set)
  ultimately show ?thesis by simp
qed

text \<open>
  C9, as amended.  A list request leaves the Config as it was, and two list requests in a
  row against the same Config each reply with the header followed by one line per key of
  the Task mapping, every key exactly once.  The order of the lines is the order in which
  range walks the map; it is not fixed and may differ between the two replies.
\<close>

theorem listing_same_command_set:
  assumes "ToLower w1 text1 = ''list'' \<or> ToLower w1 text1 = ''list command''"
    and "ToLower w2 text2 = ''list'' \<or> ToLower w2 text2 = ''list command''"
  shows "\<exists>ks1 ks2.
           handleMessageText w1 config channelID text1 =
             \<lparr>effects = [PostMessage channelID (listHeader @ concat (map commandLine ks1))],
              panicked = False, store = config\<rparr>
         \<and> handleMessageText w2 (store (handleMessageText w1 config channelID text1))
               channelID text2 =
             \<lparr>effects = [PostMessage channelID (listHeader @ concat (map commandLine ks2))],
              panicked = False, store = config\<rparr>
         \<and> distinct ks1 \<and> distinct ks2
         \<and> set ks1 = fst ` set (Tasks config) \<and> set ks2 = fst ` set (Tasks config)"
proof -
  let ?ks1 = "rangeOrder (rangeSeed w1) (mapKeys (Tasks config))"
  let ?ks2 = "rangeOrder (rangeSeed w2) (mapKeys (Tasks config))"
  have l1: "ToLower w1 text1 = ''list command'' \<or> ToLower w1 text1 = ''list''"
    using assms(1) by blast
  have l2: "ToLower w2 text2 = ''list command'' \<or> ToLower w2 text2 = ''list''"
    using assms(2) by blast
  have r1: "handleMessageText w1 config channelID text1 =
             \<lparr>effects = [PostMessage channelID (listHeader @ concat (map commandLine ?ks1))],
              panicked = False, store = config\<rparr>"
    by (rule handle_list [OF l1])
  have r2: "handleMessageText w2 (store (handleMessageText w1 config channelID text1))
               channelID text2 =
             \<lparr>effects = [PostMessage channelID (listHeader @ concat (map commandLine ?ks2))],
              panicked = False, store = config\<rparr>"
    by (simp add: r1 handle_list [OF l2])
  show ?thesis
  proof (intro exI conjI)
    show "handleMessageText w1 config channelID text1 =
             \<lparr>effects = [PostMessage channelID (listHeader @ concat (map commandLine ?ks1))],
              panicked = False, store = config\<rparr>"
      by (rule r1)
    show "handleMessageText w2 (store (handleMessageText w1 config channelID text1))
               channelID text2 =
             \<lparr>effects = [PostMessage channelID (listHeader @ concat (map commandLine ?ks2))],
              panicked = False, store = config\<rparr>"
      by (rule r2)
  qed (simp_all add: rangeOrder_keys)
qed

theorem listing_same_command_set_witness:
  "\<exists>ks1 ks2.
      handleMessageText sampleWorld sampleConfig ''C1'' ''LIST'' =
        \<lparr>effects = [PostMessage ''C1'' (listHeader @ concat (map commandLine ks1))],
         panicked = False, store = sampleConfig\<rparr>
    \<and> handleMessageText (sampleWorld\<lparr>rangeSeed := [1]\<rparr>)
          (store (handleMessageText sampleWorld sampleConfig ''C1'' ''LIST'')) ''C1'' ''LIST'' =
        \<lparr>effects = [PostMessage ''C1'' (listHeader @ concat (map commandLine ks2))],
         panicked = False, store = sampleConfig\<rparr>
    \<and> distinct ks1 \<and> distinct ks2
    \<and> set ks1 = fst ` set (Tasks sampleConfig) \<and> set ks2 = fst ` set (Tasks sampleConfig)"
proof -
  have l1: "ToLower sampleWorld ''LIST'' = ''list'' \<or> ToLower sampleWorld ''LIST'' = ''list command''"
    by (simp add: sample_lower_LIST)
  have "ToLower (sampleWorld\<lparr>rangeSeed := [1]\<rparr>) ''LIST'' = ToLower sampleWorld ''LIST''"
    by (simp add: ToLower_def)
  then have l2: "ToLower (sampleWorld\<lparr>rangeSeed := [1]\<rparr>) ''LIST'' = ''list''
      \<or> ToLower (sampleWorld\<lparr>rangeSeed := [1]\<rparr>) ''LIST'' = ''list command''"
    by (simp add: sample_lower_LIST)
  show ?thesis
    by (rule listing_same_command_set [OF l1 l2])
qed

lemma sample_keys:
  "mapKeys (Tasks sampleConfig) = [''restart-api'', ''status'', ''deploy pay prod'', ''Status'']"
  by (simp add: sampleConfig_def mapKeys_def)

lemma sample_lower_list: "ToLower w ''list'' = ''list''"
  by (simp add: ToLower_def isASCII_def lowerByte_def isUpperByte_def)

text \<open>
  C9 as stated fails: two list requests in a row against the same Config can render the
  same keys in a different order, so the reply texts differ.
\<close>

theorem listing_order_differs:
  "effects (handleMessageText sampleWorld sampleConfig ''C1'' ''list'')
     = [PostMessage ''C1'' (listHeader @ commandLine ''restart-api'' @ commandLine ''status''
          @ commandLine ''deploy pay prod'' @ commandLine ''Status'')]
   \<and> effects (handleMessageText (sampleWorld\<lparr>rangeSeed := [1]\<rparr>)
        (store (handleMessageText sampleWorld sampleConfig ''C1'' ''list'')) ''C1'' ''list'')
     = [PostMessage ''C1'' (listHeader @ commandLine ''status'' @ commandLine ''restart-api''
          @ commandLine ''deploy pay prod'' @ commandLine ''Status'')]
   \<and> commandLine ''restart-api'' @ commandLine ''status''
        \<noteq> commandLine ''status'' @ commandLine ''restart-api''"
proof -
  have l: "ToLower w ''list'' = ''list command'' \<or> ToLower w ''list'' = ''list''" for w
    by (simp add: sample_lower_list)
  have s0: "rangeSeed sampleWorld = []"
    by (simp add: sampleWorld_def)
  have a: "effects (handleMessageText sampleWorld sampleConfig ''C1'' ''list'')
     = [PostMessage ''C1'' (listHeader @ commandLine ''restart-api'' @ commandLine ''status''
          @ commandLine ''deploy pay prod'' @ commandLine ''Status'')]"
    by (simp add: handle_list [OF l] sample_keys s0)
  have st: "store (handleMessageText sampleWorld sampleConfig ''C1'' ''list'') = sampleConfig"
    by (simp add: handle_list [OF l])
  have b: "effects (handleMessageText (sampleWorld\<lparr>rangeSeed := [1]\<rparr>)
        (store (handleMessageText sampleWorld sampleConfig ''C1'' ''list'')) ''C1'' ''list'')
     = [PostMessage ''C1'' (listHeader @ commandLine ''status'' @ commandLine ''restart-api''
          @ commandLine ''deploy pay prod'' @ commandLine ''Status'')]"
    by (simp add: st handle_list [OF l] sample_keys)
  have c: "commandLine ''restart-api'' @ commandLine ''status''
        \<noteq> commandLine ''status'' @ commandLine ''restart-api''"
    by (simp add: commandLine_def)
  from a b c show ?thesis by blast
qed


section \<open>Keys with upper-case letters\<close>

lemma withoutKey_fields:
  "Jenkins (withoutKey key config) = Jenkins config"
  "Tasks (withoutKey key config) = filter (\<lambda>kv. fst kv \<noteq> key) (Tasks config)"
  by (simp_all add: withoutKey_def)

text \<open>
  C10.  The static lookup uses the lowercased message text as key.  The lowercased text
  holds no byte from "A" to "Z" (for text with a non-ASCII byte this is the property of
  the Unicode mapping assumed here), so it never equals a key with such a byte: the
  lookup gives what it would give with that key removed from the mapping, and outside
  list requests the handler behaves as if the key were not configured.
\<close>

theorem uppercase_key_unreachable:
  assumes "list_all (\<lambda>c. \<not> isUpperByte c) (unicodeLower w messageText)"
    and "list_ex isUpperByte key"
  shows "ToLower w messageText \<noteq> key
       \<and> map_of (Tasks (withoutKey key config)) (ToLower w messageText)
           = map_of (Tasks config) (ToLower w messageText)
       \<and> (\<not> (ToLower w messageText = ''list command'' \<or> ToLower w messageText = ''list'') \<longrightarrow>
            effects (handleMessageText w (withoutKey key config) channelID messageText)
              = effects (handleMessageText w config channelID messageText)
          \<and> panicked (handleMessageText w (withoutKey key config) channelID messageText)
              = panicked (handleMessageText w config channelID messageText))"
proof -
  have ne: "ToLower w messageText \<noteq> key"
    by (rule ToLower_neq_upper_key [OF assms])
  have look: "map_of (Tasks (withoutKey key config)) (ToLower w messageText)
           = map_of (Tasks config) (ToLower w messageText)"
    by (simp add: withoutKey_fields map_of_filter_other [OF ne])
  have same: "effects (handleMessageText w (withoutKey key config) channelID messageText)
              = effects (handleMessageText w config channelID messageText)
          \<and> panicked (handleMessageText w (withoutKey key config) channelID messageText)
              = panicked (handleMessageText w config channelID messageText)"
    if notlist: "\<not> (ToLower w messageText = ''list command'' \<or> ToLower w messageText = ''list'')"
  proof (cases "prefix ''deploy '' (ToLower w messageText)")
    case True
    show ?thesis
      by (simp add: handle_deploy [OF True] Let_def withoutKey_fields)
  next
    case False
    show ?thesis
      by (simp add: handle_static [OF notlist False] look
            split: option.splits prod.splits outcome.splits)
  qed
  from ne look same show ?thesis by blast
qed

theorem uppercase_key_unreachable_witness:
  "map_of (Tasks sampleConfig) ''Status'' = Some restartTask
   \<and> ToLower sampleWorld ''Status'' \<noteq> ''Status''
   \<and> map_of (Tasks (withoutKey ''Status'' sampleConfig)) (ToLower sampleWorld ''Status'')
       = map_of (Tasks sampleConfig) (ToLower sampleWorld ''Status'')
   \<and> effects (handleMessageText sampleWorld (withoutKey ''Status'' sampleConfig) ''C1'' ''Status'')
       = effects (handleMessageText sampleWorld sampleConfig ''C1'' ''Status'')"
proof -
  have low: "ToLower sampleWorld ''Status'' = ''status''"
    by (simp add: ToLower_def isASCII_def lowerByte_def isUpperByte_def char_of_def bit_0)
  have h1: "list_all (\<lambda>c. \<not> isUpperByte c) (unicodeLower sampleWorld ''Status'')"
    by (simp add: sampleWorld_def list_all_iff lowerByte_not_upper)
  have h2: "list_ex isUpperByte ''Status''"
    by (simp add: isUpperByte_def)
  have h3: "\<not> (ToLower sampleWorld ''Status'' = ''list command''
               \<or> ToLower sampleWorld ''Status'' = ''list'')"
    by (simp add: low)
  have k: "map_of (Tasks sampleConfig) ''Status'' = Some restartTask"
    by (simp add: sampleConfig_def)
  show ?thesis
    using uppercase_key_unreachable [OF h1 h2, of sampleConfig "''C1''"] h3 k by blast
qed

end
